theory Spec2Isabelle
  imports
    Main
    "HOL-Library.Word"
    "HOL-Library.Char_ord"
    "HOL-Library.List_Lexorder"
    "HOL-Library.Product_Lexorder"
    "HOL-Library.Multiset"
begin

section \<open>Python values\<close>

text \<open>
  A Python \<open>str\<close> is a sequence of Unicode code points.  The model keeps the code points
  below 256, one \<open>char\<close> each, so \<open>of_char c\<close> is the code point and a character is
  ASCII when it is below 128.  On this range the order of \<open>HOL-Library.Char_ord\<close> and
  \<open>HOL-Library.List_Lexorder\<close> is the code point order of Python and the byte order
  SQLite's BINARY collation applies to the UTF-8 encoding.  \<open>bytes\<close> are lists of
  8-bit words.
\<close>

type_synonym byte = "8 word"
type_synonym bytes = "byte list"

datatype exn =
    ValueError
  | TypeError
  | OverflowError
  | UnicodeDecodeError
  | JSONDecodeError
  | ValidationError
  | OperationalError
  | IntegrityError

definition is_ascii :: "char \<Rightarrow> bool" where
  "is_ascii c = ((of_char c :: nat) < 128)"

definition isascii :: "string \<Rightarrow> bool" where
  "isascii s = list_all is_ascii s"

text \<open>
  \<open>str.isdigit\<close>: true when the string is not empty and every character has the Unicode
  property Numeric_Type=Digit or Numeric_Type=Decimal.  Below 256 these are the ten
  ASCII digits and the superscripts U+00B2, U+00B3 and U+00B9.
\<close>

definition ascii_digit :: "char \<Rightarrow> bool" where
  "ascii_digit c = (48 \<le> (of_char c :: nat) \<and> (of_char c :: nat) \<le> 57)"

definition digit_char :: "char \<Rightarrow> bool" where
  "digit_char c = (ascii_digit c \<or> (of_char c :: nat) = 178 \<or> (of_char c :: nat) = 179
     \<or> (of_char c :: nat) = 185)"

definition isdigit :: "string \<Rightarrow> bool" where
  "isdigit s = (s \<noteq> [] \<and> list_all digit_char s)"

text \<open>
  \<open>str.lower\<close>: below 256 the cased capitals are A-Z and U+00C0..U+00DE without the
  multiplication sign U+00D7; each maps to the code point 32 above it.
\<close>

definition lower_char :: "char \<Rightarrow> char" where
  "lower_char c =
     (let n = (of_char c :: nat)
      in if (65 \<le> n \<and> n \<le> 90) \<or> (192 \<le> n \<and> n \<le> 222 \<and> n \<noteq> 215)
         then char_of (n + 32) else c)"

definition lower :: "string \<Rightarrow> string" where
  "lower s = map lower_char s"

definition startswith :: "string \<Rightarrow> string \<Rightarrow> bool" where
  "startswith s p = (take (length p) s = p)"

definition endswith :: "string \<Rightarrow> string \<Rightarrow> bool" where
  "endswith s p = (length p \<le> length s \<and> drop (length s - length p) s = p)"

text \<open>\<open>s.replace(old, new)\<close> for a one-character \<open>old\<close>: every occurrence is replaced.\<close>

definition replace :: "string \<Rightarrow> char \<Rightarrow> string \<Rightarrow> string" where
  "replace s old new = concat (map (\<lambda>c. if c = old then new else [c]) s)"

text \<open>Truth value of an \<open>Optional[str]\<close>: \<open>None\<close> and the empty string are false.\<close>

fun truthy :: "string option \<Rightarrow> bool" where
  "truthy None = False"
| "truthy (Some s) = (s \<noteq> [])"

text \<open>\<open>str.encode()\<close>: UTF-8, one byte below 128 and two bytes from 128 to 255.\<close>

definition encode_char :: "char \<Rightarrow> bytes" where
  "encode_char c =
     (let n = (of_char c :: nat)
      in if n < 128 then [of_nat n] else [of_nat (192 + n div 64), of_nat (128 + n mod 64)])"

definition encode :: "string \<Rightarrow> bytes" where
  "encode s = concat (map encode_char s)"

text \<open>\<open>bytes.hex()\<close>, the encoding \<open>hexdigest\<close> applies to a digest: two lower-case digits a byte.\<close>

definition hex_digit :: "nat \<Rightarrow> char" where
  "hex_digit n = ''0123456789abcdef'' ! (n mod 16)"

definition hex :: "bytes \<Rightarrow> string" where
  "hex bs = concat (map (\<lambda>b. [hex_digit (unat b div 16), hex_digit (unat b mod 16)]) bs)"

section \<open>Request validation (app/models.py)\<close>

record webhook_request =
  req_message_id :: string
  req_from :: string
  req_to :: string
  req_ts :: string
  req_text :: "string option"

definition validate_phone_number :: "string \<Rightarrow> exn + string" where
  "validate_phone_number v =
     (if \<not> startswith v ''+'' \<or> \<not> isdigit (drop 1 v) then Inl ValueError else Inr v)"

text \<open>
  \<open>datetime.fromisoformat\<close> belongs to the standard library; the validator takes it as the
  parameter \<open>fromisoformat\<close>, true where the library returns a datetime and false where it
  raises \<open>ValueError\<close>.
\<close>

definition validate_timestamp :: "(string \<Rightarrow> bool) \<Rightarrow> string \<Rightarrow> exn + string" where
  "validate_timestamp fromisoformat v =
     (if \<not> fromisoformat (replace v (CHR ''Z'') ''+00:00'') then Inl ValueError
      else if \<not> endswith v ''Z'' then Inl ValueError
      else Inr v)"

text \<open>
  \<open>WebhookRequest\<close>: \<open>message_id\<close> has \<open>min_length=1\<close>, \<open>from\<close> and \<open>to\<close> go through
  \<open>validate_phone_number\<close>, \<open>ts\<close> through \<open>validate_timestamp\<close>, and \<open>text\<close> has
  \<open>max_length=4096\<close>.  Any failing field makes the constructor raise \<open>ValidationError\<close>.
\<close>

definition WebhookRequest :: "(string \<Rightarrow> bool) \<Rightarrow> webhook_request \<Rightarrow> exn + webhook_request" where
  "WebhookRequest fromisoformat r =
     (if length (req_message_id r) \<ge> 1
         \<and> \<not> isl (validate_phone_number (req_from r))
         \<and> \<not> isl (validate_phone_number (req_to r))
         \<and> \<not> isl (validate_timestamp fromisoformat (req_ts r))
         \<and> (case req_text r of None \<Rightarrow> True | Some t \<Rightarrow> length t \<le> 4096)
      then Inr r else Inl ValidationError)"

section \<open>Exceptions and storage faults\<close>

text \<open>
  A computation that may raise returns \<open>exn + 'a\<close>; \<open>try_bind\<close> runs the next statement
  unless an exception is already under way.
\<close>

definition try_bind :: "exn + 'a \<Rightarrow> ('a \<Rightarrow> exn + 'b) \<Rightarrow> exn + 'b" where
  "try_bind m f = (case m of Inl e \<Rightarrow> Inl e | Inr v \<Rightarrow> f v)"

text \<open>
  Every method of \<open>Database\<close> opens a connection and then runs its statements in order.
  The calls into sqlite3 are numbered from 0 (the \<open>connect\<close>) within a method, and
  \<open>fault = Some k\<close> says that the storage fails at call \<open>k\<close>, which then raises
  \<open>sqlite3.OperationalError\<close>; \<open>None\<close> is a storage that answers every call.
\<close>

definition sql_call :: "nat option \<Rightarrow> nat \<Rightarrow> 'a \<Rightarrow> exn + 'a" where
  "sql_call fault k v = (if fault = Some k then Inl OperationalError else Inr v)"

section \<open>The messages table and its queries (app/storage.py)\<close>

text \<open>
  One row of \<open>messages\<close>; \<open>text_col\<close> is the nullable column \<open>text\<close>.  The table is the
  list of its rows in insertion order.
\<close>

record message =
  message_id :: string
  from_msisdn :: string
  to_msisdn :: string
  ts :: string
  text_col :: "string option"
  created_at :: string

text \<open>
  \<open>INSERT INTO messages\<close>: \<open>message_id\<close> is the primary key, so the statement raises
  \<open>sqlite3.IntegrityError\<close> when a row with that key exists, and appends the row otherwise.
\<close>

definition execute_insert :: "message list \<Rightarrow> message \<Rightarrow> exn + message list" where
  "execute_insert db row =
     (if \<exists>r \<in> set db. message_id r = message_id row then Inl IntegrityError
      else Inr (db @ [row]))"

text \<open>
  \<open>insert_message\<close> returns the table after the call and the pair
  \<open>(success, is_duplicate)\<close>.  \<open>utcnow\<close> is \<open>datetime.utcnow().isoformat()\<close> at the call.
  Call 0 is the connect, call 1 the \<open>INSERT\<close>, call 2 the commit, or the rollback
  after an \<open>IntegrityError\<close>; a row that was not committed is lost when the connection
  closes.
\<close>

definition new_row :: "string \<Rightarrow> string \<Rightarrow> string \<Rightarrow> string \<Rightarrow> string \<Rightarrow> string option \<Rightarrow> message" where
  "new_row utcnow mid frm to tstamp txt =
     \<lparr>message_id = mid, from_msisdn = frm, to_msisdn = to, ts = tstamp,
      text_col = txt, created_at = utcnow @ ''Z''\<rparr>"

definition insert_message ::
  "nat option \<Rightarrow> string \<Rightarrow> message list \<Rightarrow> string \<Rightarrow> string \<Rightarrow> string \<Rightarrow> string \<Rightarrow> string option
     \<Rightarrow> message list \<times> bool \<times> bool" where
  "insert_message fault utcnow db mid frm to tstamp txt =
     (let row = new_row utcnow mid frm to tstamp txt
      in case try_bind (sql_call fault 0 ()) (\<lambda>_.
             case try_bind (sql_call fault 1 ()) (\<lambda>_.
                    try_bind (execute_insert db row) (\<lambda>db'.
                    try_bind (sql_call fault 2 ()) (\<lambda>_. Inr db'))) of
               Inr db' \<Rightarrow> Inr (db', True, False)
             | Inl IntegrityError \<Rightarrow> try_bind (sql_call fault 2 ()) (\<lambda>_. Inr (db, True, True))
             | Inl e \<Rightarrow> Inl e) of
           Inr r \<Rightarrow> r
         | Inl e \<Rightarrow> (db, False, False))"

text \<open>
  \<open>later db db'\<close>: the table \<open>db'\<close> is what \<open>db\<close> has become after any number of further
  calls of \<open>insert_message\<close>, the only operation that writes.
\<close>

inductive later :: "message list \<Rightarrow> message list \<Rightarrow> bool" where
  later_refl: "later db db"
| later_insert:
    "later db db1 \<Longrightarrow> later db (fst (insert_message fault utcnow db1 mid frm to tstamp txt))"

subsection \<open>The WHERE clause\<close>

text \<open>
  SQLite's \<open>LOWER\<close> folds the ASCII letters only.  \<open>LIKE\<close> reads both operands as
  C strings, which end at the first NUL; in the pattern \<open>%\<close> stands for any run of
  characters and \<open>_\<close> for any one character, and other characters are compared with
  ASCII case folded.  (SQLite refuses a pattern of more than 50000 bytes; the model is
  of patterns within that limit.)
\<close>

definition sqlite_lower_char :: "char \<Rightarrow> char" where
  "sqlite_lower_char c =
     (let n = (of_char c :: nat) in if 65 \<le> n \<and> n \<le> 90 then char_of (n + 32) else c)"

definition sqlite_lower :: "string \<Rightarrow> string" where
  "sqlite_lower s = map sqlite_lower_char s"

fun like_match :: "string \<Rightarrow> string \<Rightarrow> bool" where
  "like_match [] s = (s = [])"
| "like_match (p # ps) [] = (p = CHR ''%'' \<and> like_match ps [])"
| "like_match (p # ps) (c # cs) =
     (if p = CHR ''%'' then like_match ps (c # cs) \<or> like_match (p # ps) cs
      else if p = CHR ''_'' then like_match ps cs
      else sqlite_lower_char p = sqlite_lower_char c \<and> like_match ps cs)"

definition c_str :: "string \<Rightarrow> string" where
  "c_str s = takeWhile (\<lambda>c. c \<noteq> CHR 0x00) s"

definition sqlite_like :: "string \<Rightarrow> string \<Rightarrow> bool" where
  "sqlite_like s pattern = like_match (c_str pattern) (c_str s)"

text \<open>
  The three conditions \<open>get_messages\<close> can append, each with its bound parameter:
  \<open>from_msisdn = ?\<close>, \<open>ts >= ?\<close> and \<open>LOWER(text) LIKE ?\<close>.  A condition evaluates to
  true, false or NULL (\<open>None\<close>); a row is selected when the clause is true.
\<close>

datatype condition = From_eq string | Ts_ge string | Lower_text_like string

fun eval_condition :: "message \<Rightarrow> condition \<Rightarrow> bool option" where
  "eval_condition r (From_eq p) = Some (from_msisdn r = p)"
| "eval_condition r (Ts_ge p) = Some (ts r \<ge> p)"
| "eval_condition r (Lower_text_like p) =
     (case text_col r of None \<Rightarrow> None | Some t \<Rightarrow> Some (sqlite_like (sqlite_lower t) p))"

fun sql_and :: "bool option \<Rightarrow> bool option \<Rightarrow> bool option" where
  "sql_and (Some False) _ = Some False"
| "sql_and _ (Some False) = Some False"
| "sql_and (Some True) (Some True) = Some True"
| "sql_and _ _ = None"

text \<open>\<open>" AND ".join(conditions) if conditions else "1=1"\<close>\<close>

fun where_clause :: "condition list \<Rightarrow> message \<Rightarrow> bool option" where
  "where_clause [] r = Some True"
| "where_clause (c # cs) r = foldl (\<lambda>acc c'. sql_and acc (eval_condition r c')) (eval_condition r c) cs"

definition selected :: "condition list \<Rightarrow> message \<Rightarrow> bool" where
  "selected conds r = (where_clause conds r = Some True)"

definition conditions :: "string option \<Rightarrow> string option \<Rightarrow> string option \<Rightarrow> condition list" where
  "conditions frm since q =
     (if truthy frm then [From_eq (the frm)] else [])
     @ (if truthy since then [Ts_ge (the since)] else [])
     @ (if truthy q then [Lower_text_like (''%'' @ lower (the q) @ ''%'')] else [])"

subsection \<open>Listing\<close>

text \<open>
  A Python \<open>int\<close> bound to a statement parameter must fit SQLite's 64-bit INTEGER;
  sqlite3 raises \<open>OverflowError\<close> otherwise.
\<close>

definition bind_int64 :: "int \<Rightarrow> exn + int" where
  "bind_int64 i = (if - (2 ^ 63) \<le> i \<and> i < 2 ^ 63 then Inr i else Inl OverflowError)"

text \<open>\<open>LIMIT ? OFFSET ?\<close>: a negative limit is no limit, a negative offset is 0.\<close>

definition limit_offset :: "int \<Rightarrow> int \<Rightarrow> 'a list \<Rightarrow> 'a list" where
  "limit_offset limit offset xs =
     (let ys = drop (nat offset) xs in if limit < 0 then ys else take (nat limit) ys)"

text \<open>\<open>ORDER BY ts ASC, message_id ASC\<close>; the primary key makes the sort key unique.\<close>

definition order_by_ts_message_id :: "message list \<Rightarrow> message list" where
  "order_by_ts_message_id rows = sort_key (\<lambda>r. (ts r, message_id r)) rows"

text \<open>The dictionary built for a selected row, with keys message_id, from, to, ts, text.\<close>

record message_dict =
  d_message_id :: string
  d_from :: string
  d_to :: string
  d_ts :: string
  d_text :: "string option"

definition to_dict :: "message \<Rightarrow> message_dict" where
  "to_dict r = \<lparr>d_message_id = message_id r, d_from = from_msisdn r, d_to = to_msisdn r,
                d_ts = ts r, d_text = text_col r\<rparr>"

text \<open>
  \<open>get_messages\<close>: call 0 is the connect, call 1 the \<open>COUNT(*)\<close> query, call 2 the
  paginated query, whose parameters \<open>limit\<close> and \<open>offset\<close> are bound first.  Whatever is
  raised inside is caught and turned into \<open>([], 0)\<close>.
\<close>

definition get_messages ::
  "nat option \<Rightarrow> message list \<Rightarrow> int \<Rightarrow> int \<Rightarrow> string option \<Rightarrow> string option \<Rightarrow> string option
     \<Rightarrow> message_dict list \<times> int" where
  "get_messages fault db limit offset frm since q =
     (case try_bind (sql_call fault 0 ()) (\<lambda>_.
             let conds = conditions frm since q in
             try_bind (sql_call fault 1 (int (length (filter (selected conds) db)))) (\<lambda>total.
             try_bind (bind_int64 limit) (\<lambda>limit'.
             try_bind (bind_int64 offset) (\<lambda>offset'.
             try_bind (sql_call fault 2
                         (limit_offset limit' offset'
                            (order_by_ts_message_id (filter (selected conds) db))))
               (\<lambda>rows. Inr (map to_dict rows, total)))))) of
        Inr r \<Rightarrow> r
      | Inl e \<Rightarrow> ([], 0))"

subsection \<open>Statistics\<close>

record stats =
  total_messages :: int
  senders_count :: int
  messages_per_sender :: "(string \<times> int) list"
  first_message_ts :: "string option"
  last_message_ts :: "string option"

text \<open>\<open>GROUP BY from_msisdn\<close> with \<open>COUNT(*)\<close>: one row for each distinct sender.\<close>

definition group_by_from :: "message list \<Rightarrow> (string \<times> int) list" where
  "group_by_from db =
     map (\<lambda>s. (s, int (length (filter (\<lambda>r. from_msisdn r = s) db)))) (remdups (map from_msisdn db))"

text \<open>\<open>MIN\<close> and \<open>MAX\<close> of a text column: NULL over no rows.\<close>

fun sql_min :: "string list \<Rightarrow> string option" where
  "sql_min [] = None"
| "sql_min (x # xs) = Some (fold min xs x)"

fun sql_max :: "string list \<Rightarrow> string option" where
  "sql_max [] = None"
| "sql_max (x # xs) = Some (fold max xs x)"

text \<open>
  \<open>get_stats\<close>: call 0 is the connect, calls 1 to 4 the four queries.  The third query
  says \<open>ORDER BY count DESC\<close> and names no second key, so the order of senders with equal
  counts is the SQL engine's; the engine's sort is the parameter \<open>order_by_count_desc\<close>.
  The first and last timestamps go through \<open>x if x else None\<close>.
\<close>

definition get_stats ::
  "((string \<times> int) list \<Rightarrow> (string \<times> int) list) \<Rightarrow> nat option \<Rightarrow> message list \<Rightarrow> stats" where
  "get_stats order_by_count_desc fault db =
     (case try_bind (sql_call fault 0 ()) (\<lambda>_.
             try_bind (sql_call fault 1 (int (length db))) (\<lambda>total.
             try_bind (sql_call fault 2 (int (length (remdups (map from_msisdn db))))) (\<lambda>senders_cnt.
             try_bind (sql_call fault 3 (take 10 (order_by_count_desc (group_by_from db)))) (\<lambda>senders.
             try_bind (sql_call fault 4 (sql_min (map ts db), sql_max (map ts db))) (\<lambda>row.
             Inr \<lparr>total_messages = total, senders_count = senders_cnt,
                  messages_per_sender = senders,
                  first_message_ts = (if truthy (fst row) then fst row else None),
                  last_message_ts = (if truthy (snd row) then snd row else None)\<rparr>))))) of
        Inr r \<Rightarrow> r
      | Inl e \<Rightarrow> \<lparr>total_messages = 0, senders_count = 0, messages_per_sender = [],
                   first_message_ts = None, last_message_ts = None\<rparr>)"


definition sqlite_order_by_count_desc :: "(string \<times> int) list \<Rightarrow> (string \<times> int) list" where
  "sqlite_order_by_count_desc xs = rev (sort_key (\<lambda>g. (snd g, fst g)) xs)"


section \<open>The webhook (app/main.py)\<close>

text \<open>
  \<open>hmac.compare_digest\<close> on two \<open>str\<close> arguments raises \<open>TypeError\<close> unless both are
  ASCII, and compares them otherwise.
\<close>

definition compare_digest :: "string \<Rightarrow> string \<Rightarrow> exn + bool" where
  "compare_digest a b = (if isascii a \<and> isascii b then Inr (a = b) else Inl TypeError)"

text \<open>
  \<open>hmac_sha256 key msg\<close> stands for \<open>hmac.new(key, msg, hashlib.sha256).digest()\<close>, a
  parameter; \<open>hexdigest\<close> is its \<open>hex\<close>.  \<open>secret\<close> is \<open>settings.WEBHOOK_SECRET\<close>.
\<close>

definition verify_signature ::
  "(bytes \<Rightarrow> bytes \<Rightarrow> bytes) \<Rightarrow> string option \<Rightarrow> bytes \<Rightarrow> string \<Rightarrow> exn + bool" where
  "verify_signature hmac_sha256 secret body signature =
     (if \<not> truthy secret then Inr False
      else compare_digest (hex (hmac_sha256 (encode (the secret)) body)) signature)"

text \<open>
  The handler ends by returning \<open>WebhookResponse(status="ok")\<close>, by raising an
  \<open>HTTPException\<close> with a status code, or with an exception nothing catches.
  \<open>loads\<close> stands for \<open>json.loads(body.decode())\<close> followed by pydantic's reading of the
  five fields out of the decoded object.
\<close>

datatype response = WebhookResponse_ok | HTTPException nat | Uncaught exn

definition webhook ::
  "(bytes \<Rightarrow> bytes \<Rightarrow> bytes) \<Rightarrow> (bytes \<Rightarrow> exn + webhook_request) \<Rightarrow> (string \<Rightarrow> bool)
     \<Rightarrow> nat option \<Rightarrow> string \<Rightarrow> string option \<Rightarrow> message list \<Rightarrow> bytes \<Rightarrow> string option
     \<Rightarrow> response \<times> message list" where
  "webhook hmac_sha256 loads fromisoformat fault utcnow secret db body x_signature =
     (if \<not> truthy x_signature then (HTTPException 401, db)
      else case verify_signature hmac_sha256 secret body (the x_signature) of
        Inl e \<Rightarrow> (Uncaught e, db)
      | Inr False \<Rightarrow> (HTTPException 401, db)
      | Inr True \<Rightarrow>
          (case try_bind (loads body) (WebhookRequest fromisoformat) of
             Inl JSONDecodeError \<Rightarrow> (HTTPException 422, db)
           | Inl ValidationError \<Rightarrow> (HTTPException 422, db)
           | Inl e \<Rightarrow> (Uncaught e, db)
           | Inr webhook_data \<Rightarrow>
               (case insert_message fault utcnow db (req_message_id webhook_data)
                       (req_from webhook_data) (req_to webhook_data) (req_ts webhook_data)
                       (req_text webhook_data) of
                  (db', success, is_duplicate) \<Rightarrow>
                    if \<not> success then (HTTPException 500, db') else (WebhookResponse_ok, db'))))"

section \<open>Specification predicates\<close>

text \<open>
  The filter of the listing as the specification words it: the sender equals \<open>from\<close>
  when that is given, and the timestamp is at least \<open>since\<close>, as strings, when that is
  given.
\<close>

definition matches_filters :: "string option \<Rightarrow> string option \<Rightarrow> message \<Rightarrow> bool" where
  "matches_filters frm since r =
     ((case frm of None \<Rightarrow> True | Some f \<Rightarrow> from_msisdn r = f)
      \<and> (case since of None \<Rightarrow> True | Some s \<Rightarrow> ts r \<ge> s))"

text \<open>
  The text filter on an ordinary query: \<open>q\<close> occurs in \<open>t\<close> as a substring, the case
  of ASCII letters ignored.
\<close>

definition occurs_ignoring_ascii_case :: "string \<Rightarrow> string \<Rightarrow> bool" where
  "occurs_ignoring_ascii_case q t =
     (\<exists>u w v. t = u @ w @ v \<and> map sqlite_lower_char w = map sqlite_lower_char q)"

section \<open>Idempotent insert\<close>

lemma message_id_new_row [simp]: "message_id (new_row utcnow mid frm to tstamp txt) = mid"
  by (simp add: new_row_def)

lemma insert_message_fresh:
  "\<forall>r \<in> set db. message_id r \<noteq> mid \<Longrightarrow>
   insert_message None utcnow db mid frm to tstamp txt
     = (db @ [new_row utcnow mid frm to tstamp txt], True, False)"
  by (auto simp: insert_message_def try_bind_def sql_call_def execute_insert_def)

lemma insert_message_present:
  "\<exists>r \<in> set db. message_id r = mid \<Longrightarrow>
   insert_message None utcnow db mid frm to tstamp txt = (db, True, True)"
  by (auto simp: insert_message_def try_bind_def sql_call_def execute_insert_def)

lemma insert_message_table:
  "fst (insert_message fault utcnow db mid frm to tstamp txt) = db
   \<or> (fst (insert_message fault utcnow db mid frm to tstamp txt)
         = db @ [new_row utcnow mid frm to tstamp txt]
       \<and> (\<forall>r \<in> set db. message_id r \<noteq> mid))"
  by (auto simp: insert_message_def try_bind_def sql_call_def execute_insert_def Let_def
           split: sum.splits exn.splits)

lemma later_keeps_row:
  assumes "later db db1" and "filter (\<lambda>r. message_id r = mid) db = [row]"
  shows "filter (\<lambda>r. message_id r = mid) db1 = [row]"
  using assms
proof (induction rule: later.induct)
  case (later_refl db)
  then show ?case by simp
next
  case (later_insert db db1 fault utcnow mid' frm' to' tstamp' txt')
  then have keep: "filter (\<lambda>r. message_id r = mid) db1 = [row]" by simp
  then have "row \<in> set (filter (\<lambda>r. message_id r = mid) db1)" by simp
  then have present: "row \<in> set db1" "message_id row = mid" by auto
  from insert_message_table [of fault utcnow db1 mid' frm' to' tstamp' txt']
  show ?case
  proof
    assume "fst (insert_message fault utcnow db1 mid' frm' to' tstamp' txt') = db1"
    with keep show ?thesis by simp
  next
    assume a: "fst (insert_message fault utcnow db1 mid' frm' to' tstamp' txt')
         = db1 @ [new_row utcnow mid' frm' to' tstamp' txt']
       \<and> (\<forall>r \<in> set db1. message_id r \<noteq> mid')"
    with present have "mid' \<noteq> mid" by auto
    with a keep show ?thesis by simp
  qed
qed

text \<open>
  Claim C1 (idempotent insert).  While the storage answers, a first \<open>insert_message\<close>
  with a \<open>message_id\<close> no row has returns \<open>(True, False)\<close> and appends exactly one row,
  stamped with the time of that call.  In every later state of the table, a further
  insert with the same \<open>message_id\<close>, whatever its other fields and its time, returns
  \<open>(True, True)\<close> and leaves the table as it is, and the table holds exactly one row
  with that id: the row of the first call, its \<open>created_at\<close> included.
\<close>

theorem insert_message_idempotent:
  assumes "\<forall>r \<in> set db. message_id r \<noteq> mid"
    and "later (db @ [new_row utcnow mid frm to tstamp txt]) db1"
  shows "insert_message None utcnow db mid frm to tstamp txt
           = (db @ [new_row utcnow mid frm to tstamp txt], True, False)
       \<and> filter (\<lambda>r. message_id r = mid) (db @ [new_row utcnow mid frm to tstamp txt])
           = [new_row utcnow mid frm to tstamp txt]
       \<and> insert_message None utcnow1 db1 mid frm1 to1 tstamp1 txt1 = (db1, True, True)
       \<and> filter (\<lambda>r. message_id r = mid) db1 = [new_row utcnow mid frm to tstamp txt]"
proof -
  let ?row = "new_row utcnow mid frm to tstamp txt"
  have one: "filter (\<lambda>r. message_id r = mid) (db @ [?row]) = [?row]"
    using assms(1) by (simp add: filter_empty_conv)
  have kept: "filter (\<lambda>r. message_id r = mid) db1 = [?row]"
    using later_keeps_row [OF assms(2) one] .
  then have "?row \<in> set (filter (\<lambda>r. message_id r = mid) db1)" by simp
  then have "?row \<in> set db1" by simp
  then have "\<exists>r \<in> set db1. message_id r = mid" by (rule bexI [rotated]) simp
  then have dup: "insert_message None utcnow1 db1 mid frm1 to1 tstamp1 txt1 = (db1, True, True)"
    by (rule insert_message_present)
  from insert_message_fresh [OF assms(1)] one dup kept show ?thesis by simp
qed

text \<open>
  The theorem at the payload of the repository's idempotency test, with a second
  message stored between the two calls.
\<close>

theorem insert_message_idempotent_witness:
  "insert_message None ''2025-01-15T10:00:01'' [] ''m1'' ''+919876543210'' ''+14155550100''
       ''2025-01-15T10:00:00Z'' (Some ''Hello'')
     = ([new_row ''2025-01-15T10:00:01'' ''m1'' ''+919876543210'' ''+14155550100''
           ''2025-01-15T10:00:00Z'' (Some ''Hello'')], True, False)
   \<and> insert_message None ''2025-01-15T10:09:00''
       [new_row ''2025-01-15T10:00:01'' ''m1'' ''+919876543210'' ''+14155550100''
          ''2025-01-15T10:00:00Z'' (Some ''Hello''),
        new_row ''2025-01-15T10:05:00'' ''m2'' ''+911234567890'' ''+14155550100''
          ''2025-01-15T10:04:00Z'' None]
       ''m1'' ''+919876543210'' ''+14155550100'' ''2025-01-15T10:00:00Z'' (Some ''Hello again'')
     = ([new_row ''2025-01-15T10:00:01'' ''m1'' ''+919876543210'' ''+14155550100''
           ''2025-01-15T10:00:00Z'' (Some ''Hello''),
         new_row ''2025-01-15T10:05:00'' ''m2'' ''+911234567890'' ''+14155550100''
           ''2025-01-15T10:04:00Z'' None], True, True)
   \<and> created_at (hd (filter (\<lambda>r. message_id r = ''m1'')
       [new_row ''2025-01-15T10:00:01'' ''m1'' ''+919876543210'' ''+14155550100''
          ''2025-01-15T10:00:00Z'' (Some ''Hello''),
        new_row ''2025-01-15T10:05:00'' ''m2'' ''+911234567890'' ''+14155550100''
          ''2025-01-15T10:04:00Z'' None])) = ''2025-01-15T10:00:01Z''"
proof -
  let ?r1 = "new_row ''2025-01-15T10:00:01'' ''m1'' ''+919876543210'' ''+14155550100''
           ''2025-01-15T10:00:00Z'' (Some ''Hello'')"
  let ?r2 = "new_row ''2025-01-15T10:05:00'' ''m2'' ''+911234567890'' ''+14155550100''
           ''2025-01-15T10:04:00Z'' None"
  have fresh: "\<forall>r \<in> set []. message_id r \<noteq> ''m1''" by simp
  have "fst (insert_message None ''2025-01-15T10:05:00'' [?r1] ''m2'' ''+911234567890''
               ''+14155550100'' ''2025-01-15T10:04:00Z'' None) = [?r1, ?r2]"
    by (simp add: insert_message_fresh)
  with later_insert [OF later_refl, of "[?r1]" None "''2025-01-15T10:05:00''" "''m2''"
      "''+911234567890''" "''+14155550100''" "''2025-01-15T10:04:00Z''" None]
  have lat: "later ([] @ [?r1]) [?r1, ?r2]" by simp
  from insert_message_idempotent [OF fresh lat, of "''2025-01-15T10:09:00''"
      "''+919876543210''" "''+14155550100''" "''2025-01-15T10:00:00Z''" "Some ''Hello again''"]
  show ?thesis by (simp add: new_row_def)
qed

lemma insert_message_distinct:
  assumes "distinct (map message_id db)"
  shows "distinct (map message_id (fst (insert_message fault utcnow db mid frm to tstamp txt)))"
  using insert_message_table [of fault utcnow db mid frm to tstamp "txt"] assms
  by auto

section \<open>Listing\<close>

lemma sql_and_True: "sql_and a b = Some True \<longleftrightarrow> a = Some True \<and> b = Some True"
  by (cases "(a, b)" rule: sql_and.cases) auto

lemma foldl_sql_and_True:
  "foldl (\<lambda>acc c. sql_and acc (e c)) a cs = Some True
     \<longleftrightarrow> a = Some True \<and> (\<forall>c \<in> set cs. e c = Some True)"
  by (induction cs arbitrary: a) (auto simp: sql_and_True)

lemma selected_iff: "selected conds r \<longleftrightarrow> (\<forall>c \<in> set conds. eval_condition r c = Some True)"
  by (cases conds) (auto simp: selected_def foldl_sql_and_True)

lemma selected_without_q:
  "frm \<noteq> Some [] \<Longrightarrow> selected (conditions frm since None) = matches_filters frm since"
  by (cases frm; cases since)
     (auto simp: fun_eq_iff selected_iff conditions_def matches_filters_def)

lemma get_messages_healthy:
  assumes "0 \<le> lim" "lim < 2 ^ 63" "0 \<le> off" "off < 2 ^ 63"
  shows "get_messages None db lim off frm since q =
     (map to_dict (take (nat lim) (drop (nat off)
        (order_by_ts_message_id (filter (selected (conditions frm since q)) db)))),
      int (length (filter (selected (conditions frm since q)) db)))"
proof -
  have "bind_int64 lim = Inr lim" "bind_int64 off = Inr off"
    using assms by (simp_all add: bind_int64_def)
  then show ?thesis
    using assms(1)
    by (simp add: get_messages_def try_bind_def sql_call_def limit_offset_def Let_def)
qed

text \<open>
  A limit or an offset that does not fit 64 bits makes the second query raise while
  its parameters are bound, and the handler answers as for a storage fault.
\<close>

lemma get_messages_overflow:
  assumes "lim < - (2 ^ 63) \<or> 2 ^ 63 \<le> lim \<or> off < - (2 ^ 63) \<or> 2 ^ 63 \<le> off"
  shows "get_messages fault db lim off frm since q = ([], 0)"
  using assms
  by (auto simp: get_messages_def try_bind_def sql_call_def bind_int64_def Let_def
           split: sum.splits)

text \<open>
  With the primary key unique, there is one list that holds the selected rows in the
  order of \<open>(ts, message_id)\<close>: the one the query returns before the window.
\<close>

lemma listing_unique:
  assumes ids: "distinct (map message_id db)"
    and perm: "mset rows = mset (filter P db)"
    and srt: "sorted (map (\<lambda>r. (ts r, message_id r)) rows)"
  shows "rows = order_by_ts_message_id (filter P db)"
proof -
  let ?key = "\<lambda>r. (ts r, message_id r)"
  let ?L = "order_by_ts_message_id (filter P db)"
  have inj: "inj_on ?key (set db)"
    using ids by (auto simp: inj_on_def distinct_map)
  have mL: "mset ?L = mset (filter P db)" by (simp add: order_by_ts_message_id_def)
  have "set rows = set (filter P db)" "set ?L = set (filter P db)"
    using mset_eq_setD [OF perm] mset_eq_setD [OF mL] by blast+
  then have sub: "set rows \<subseteq> set db" "set ?L \<subseteq> set db"
    by auto
  have "distinct (filter P db)" using ids by (simp add: distinct_map)
  then have "distinct rows" "distinct ?L"
    using perm mL by (metis mset_eq_imp_distinct_iff)+
  then have d: "distinct (map ?key rows)" "distinct (map ?key ?L)"
    using inj sub by (auto simp: distinct_map intro: inj_on_subset)
  have "set (map ?key rows) = set (map ?key ?L)"
    using perm mL by (metis mset_eq_setD set_map)
  moreover have "sorted (map ?key ?L)" by (simp add: order_by_ts_message_id_def)
  ultimately have "map ?key rows = map ?key ?L"
    using srt d by (intro sorted_distinct_set_unique)
  moreover have "inj_on ?key (set rows \<union> set ?L)"
    using inj sub by (auto intro: inj_on_subset)
  ultimately show ?thesis by (rule map_inj_on)
qed

text \<open>
  Claim C3 (list correctness), as amended.  While the storage answers, for every
  table, every limit from 1 to 100, every offset from 0 that fits a 64-bit integer,
  and every \<open>from\<close> and \<open>since\<close> where a given \<open>from\<close> is not the empty string:
  \<open>get_messages\<close> returns the window \<open>[offset, offset + limit)\<close> of the rows whose sender
  equals \<open>from\<close> (when given) and whose timestamp is at least \<open>since\<close> in string order
  (when given), taken after sorting them by timestamp and then \<open>message_id\<close>, both
  ascending; and \<open>total\<close> is the number of rows that match the filters, before the
  window.
\<close>

theorem get_messages_filters_sorts_windows:
  assumes "1 \<le> lim" and "lim \<le> 100" and "0 \<le> off" and "off < 2 ^ 63" and "frm \<noteq> Some []"
  shows "\<exists>rows. mset rows = mset (filter (matches_filters frm since) db)
           \<and> sorted (map (\<lambda>r. (ts r, message_id r)) rows)
           \<and> get_messages None db lim off frm since None
               = (map to_dict (take (nat lim) (drop (nat off) rows)),
                  int (length (filter (matches_filters frm since) db)))"
proof -
  let ?rows = "order_by_ts_message_id (filter (matches_filters frm since) db)"
  have "mset ?rows = mset (filter (matches_filters frm since) db)"
    by (simp add: order_by_ts_message_id_def)
  moreover have "sorted (map (\<lambda>r. (ts r, message_id r)) ?rows)"
    by (simp add: order_by_ts_message_id_def)
  moreover have "get_messages None db lim off frm since None
               = (map to_dict (take (nat lim) (drop (nat off) ?rows)),
                  int (length (filter (matches_filters frm since) db)))"
    using assms by (simp add: get_messages_healthy selected_without_q)
  ultimately show ?thesis by blast
qed

text \<open>
  The theorem on the three messages of the repository's listing tests, stored in
  reverse order: the filters keep \<open>m2\<close> only.
\<close>

theorem get_messages_filters_sorts_windows_witness:
  "get_messages None
     [new_row ''2025-01-15T12:00:03'' ''m3'' ''+911234567890'' ''+14155550100''
        ''2025-01-15T11:00:00Z'' (Some ''Third message''),
      new_row ''2025-01-15T12:00:04'' ''m2'' ''+919876543210'' ''+14155550100''
        ''2025-01-15T10:00:00Z'' (Some ''Second message''),
      new_row ''2025-01-15T12:00:05'' ''m1'' ''+919876543210'' ''+14155550100''
        ''2025-01-15T09:00:00Z'' (Some ''First message'')]
     2 0 (Some ''+919876543210'') (Some ''2025-01-15T09:30:00Z'') None
   = ([\<lparr>d_message_id = ''m2'', d_from = ''+919876543210'', d_to = ''+14155550100'',
        d_ts = ''2025-01-15T10:00:00Z'', d_text = Some ''Second message''\<rparr>], 1)"
proof -
  let ?db = "[new_row ''2025-01-15T12:00:03'' ''m3'' ''+911234567890'' ''+14155550100''
        ''2025-01-15T11:00:00Z'' (Some ''Third message''),
      new_row ''2025-01-15T12:00:04'' ''m2'' ''+919876543210'' ''+14155550100''
        ''2025-01-15T10:00:00Z'' (Some ''Second message''),
      new_row ''2025-01-15T12:00:05'' ''m1'' ''+919876543210'' ''+14155550100''
        ''2025-01-15T09:00:00Z'' (Some ''First message'')]"
  have flt: "filter (matches_filters (Some ''+919876543210'') (Some ''2025-01-15T09:30:00Z'')) ?db
      = [new_row ''2025-01-15T12:00:04'' ''m2'' ''+919876543210'' ''+14155550100''
        ''2025-01-15T10:00:00Z'' (Some ''Second message'')]"
    by (simp add: matches_filters_def new_row_def)
  from get_messages_filters_sorts_windows [of 2 0 "Some ''+919876543210''"
      "Some ''2025-01-15T09:30:00Z''" ?db]
  obtain rows where "mset rows = mset (filter (matches_filters (Some ''+919876543210'')
        (Some ''2025-01-15T09:30:00Z'')) ?db)"
    and res: "get_messages None ?db 2 0 (Some ''+919876543210'') (Some ''2025-01-15T09:30:00Z'') None
               = (map to_dict (take (nat 2) (drop (nat 0) rows)),
                  int (length (filter (matches_filters (Some ''+919876543210'')
        (Some ''2025-01-15T09:30:00Z'')) ?db)))"
    by auto
  then have "rows = [new_row ''2025-01-15T12:00:04'' ''m2'' ''+919876543210'' ''+14155550100''
        ''2025-01-15T10:00:00Z'' (Some ''Second message'')]"
    unfolding flt by simp
  with res show ?thesis unfolding flt by (simp add: to_dict_def new_row_def)
qed

text \<open>
  Claim C3 as first stated lets \<open>from\<close> be any given string.  Given the empty string,
  \<open>get_messages\<close> skips the condition (\<open>if from_msisdn:\<close>) and returns the row below,
  although no row of the table has the empty sender.
\<close>

theorem get_messages_empty_from_counterexample:
  "get_messages None
     [\<lparr>message_id = ''m1'', from_msisdn = ''+919876543210'', to_msisdn = ''+14155550100'',
       ts = ''2025-01-15T09:00:00Z'', text_col = Some ''First message'',
       created_at = ''2025-01-15T09:00:01Z''\<rparr>] 50 0 (Some '''') None None
   = ([\<lparr>d_message_id = ''m1'', d_from = ''+919876543210'', d_to = ''+14155550100'',
        d_ts = ''2025-01-15T09:00:00Z'', d_text = Some ''First message''\<rparr>], 1)
   \<and> filter (matches_filters (Some '''') None)
     [\<lparr>message_id = ''m1'', from_msisdn = ''+919876543210'', to_msisdn = ''+14155550100'',
       ts = ''2025-01-15T09:00:00Z'', text_col = Some ''First message'',
       created_at = ''2025-01-15T09:00:01Z''\<rparr>] = []"
  by (simp add: get_messages_healthy conditions_def selected_def order_by_ts_message_id_def
      to_dict_def matches_filters_def)

text \<open>
  Claim C10 (empty-string filters are absent filters).  For every table, limit, offset
  and state of the storage, \<open>get_messages\<close> with \<open>from\<close>, \<open>since\<close> or \<open>q\<close> equal to the
  empty string returns what it returns with that filter left out, whatever the other
  filters are.
\<close>

theorem get_messages_empty_filter_is_absent:
  "get_messages fault db lim off (Some '''') since q = get_messages fault db lim off None since q
   \<and> get_messages fault db lim off frm (Some '''') q = get_messages fault db lim off frm None q
   \<and> get_messages fault db lim off frm since (Some '''') = get_messages fault db lim off frm since None"
  by (simp add: get_messages_def conditions_def)

text \<open>With \<open>q\<close> empty, a row whose text is NULL is still listed.\<close>

theorem get_messages_empty_filter_is_absent_witness:
  "get_messages None
     [new_row ''2025-01-15T12:00:03'' ''m1'' ''+911234567890'' ''+14155550100''
        ''2025-01-15T11:00:00Z'' None] 50 0 None None (Some '''')
   = ([\<lparr>d_message_id = ''m1'', d_from = ''+911234567890'', d_to = ''+14155550100'',
        d_ts = ''2025-01-15T11:00:00Z'', d_text = None\<rparr>], 1)"
proof -
  have "get_messages None
     [new_row ''2025-01-15T12:00:03'' ''m1'' ''+911234567890'' ''+14155550100''
        ''2025-01-15T11:00:00Z'' None] 50 0 None None None
   = ([\<lparr>d_message_id = ''m1'', d_from = ''+911234567890'', d_to = ''+14155550100'',
        d_ts = ''2025-01-15T11:00:00Z'', d_text = None\<rparr>], 1)"
    by (simp add: get_messages_healthy conditions_def selected_def order_by_ts_message_id_def
      to_dict_def new_row_def)
  with get_messages_empty_filter_is_absent [of None _ 50 0 None "None" None]
  show ?thesis by simp
qed

section \<open>Soft failure of the read path\<close>

text \<open>
  Claim C5 (read-path soft fail).  Whichever sqlite3 call of a read raises (the
  connect or one of the two queries of \<open>get_messages\<close>; the connect or one of the four
  queries of \<open>get_stats\<close>), for every table and every argument, \<open>get_messages\<close>
  returns the empty list with total 0 and \<open>get_stats\<close> returns zero counts, no senders
  and no timestamps.  Both functions return a value in every case: the exception
  stops at their \<open>except Exception\<close>.
\<close>

theorem read_path_soft_fail:
  "(k < 3 \<longrightarrow> get_messages (Some k) db lim off frm since q = ([], 0))
   \<and> (k < 5 \<longrightarrow> get_stats order_by_count_desc (Some k) db
         = \<lparr>total_messages = 0, senders_count = 0, messages_per_sender = [],
            first_message_ts = None, last_message_ts = None\<rparr>)"
proof (intro conjI impI)
  assume "k < 3"
  then have "k = 0 \<or> k = 1 \<or> k = 2" by auto
  then show "get_messages (Some k) db lim off frm since q = ([], 0)"
    by (auto simp: get_messages_def try_bind_def sql_call_def Let_def split: sum.splits)
next
  assume "k < 5"
  then have "k = 0 \<or> k = 1 \<or> k = 2 \<or> k = 3 \<or> k = 4" by auto
  then show "get_stats order_by_count_desc (Some k) db
         = \<lparr>total_messages = 0, senders_count = 0, messages_per_sender = [],
            first_message_ts = None, last_message_ts = None\<rparr>"
    by (auto simp: get_stats_def try_bind_def sql_call_def)
qed

text \<open>The count query of the listing fails; the top-senders query of the statistics fails.\<close>

theorem read_path_soft_fail_witness:
  "get_messages (Some 1)
     [new_row ''2025-01-15T12:00:03'' ''m1'' ''+911234567890'' ''+14155550100''
        ''2025-01-15T11:00:00Z'' None] 50 0 None None None = ([], 0)
   \<and> get_stats sqlite_order_by_count_desc (Some 3)
     [new_row ''2025-01-15T12:00:03'' ''m1'' ''+911234567890'' ''+14155550100''
        ''2025-01-15T11:00:00Z'' None]
     = \<lparr>total_messages = 0, senders_count = 0, messages_per_sender = [],
            first_message_ts = None, last_message_ts = None\<rparr>"
  using read_path_soft_fail [of 1 _ 50 0 None None None sqlite_order_by_count_desc]
    read_path_soft_fail [of 3 _ 50 0 None None None sqlite_order_by_count_desc]
  by simp

section \<open>Statistics\<close>
















section \<open>Text query\<close>

text \<open>
  What \<open>LIKE\<close> does with a pattern \<open>%p%\<close> whose \<open>p\<close> holds no wildcard: it looks for
  \<open>p\<close> as a substring, ASCII case ignored.
\<close>

lemma like_match_percent:
  "like_match (CHR ''%'' # ps) s \<longleftrightarrow> (\<exists>u v. s = u @ v \<and> like_match ps v)"
proof (induction s)
  case Nil
  then show ?case by simp
next
  case (Cons c cs)
  show ?case
  proof
    assume "like_match (CHR ''%'' # ps) (c # cs)"
    then have "like_match ps (c # cs) \<or> like_match (CHR ''%'' # ps) cs" by simp
    then show "\<exists>u v. c # cs = u @ v \<and> like_match ps v"
    proof
      assume "like_match ps (c # cs)"
      then have "c # cs = [] @ (c # cs) \<and> like_match ps (c # cs)" by simp
      then show ?thesis by blast
    next
      assume "like_match (CHR ''%'' # ps) cs"
      with Cons.IH obtain u v where "cs = u @ v" "like_match ps v" by blast
      then have "c # cs = (c # u) @ v \<and> like_match ps v" by simp
      then show ?thesis by blast
    qed
  next
    assume "\<exists>u v. c # cs = u @ v \<and> like_match ps v"
    then obtain u v where uv: "c # cs = u @ v" "like_match ps v" by blast
    show "like_match (CHR ''%'' # ps) (c # cs)"
    proof (cases u)
      case Nil
      with uv have "like_match ps (c # cs)" by simp
      then show ?thesis by simp
    next
      case (Cons a u')
      with uv have "cs = u' @ v" by simp
      with uv(2) Cons.IH have "like_match (CHR ''%'' # ps) cs" by blast
      then show ?thesis by simp
    qed
  qed
qed

lemma like_match_literal_percent:
  assumes "CHR ''%'' \<notin> set p" and "CHR ''_'' \<notin> set p"
  shows "like_match (p @ ''%'') s
     \<longleftrightarrow> (\<exists>w v. s = w @ v \<and> map sqlite_lower_char w = map sqlite_lower_char p)"
  using assms
proof (induction p arbitrary: s)
  case Nil
  have "like_match ''%'' s" using like_match_percent [of "[]" s] by auto
  then show ?case by simp
next
  case (Cons a p)
  show ?case
  proof (cases s)
    case Nil
    with Cons.prems show ?thesis by auto
  next
    case (Cons c cs)
    have "like_match ((a # p) @ ''%'') (c # cs)
        \<longleftrightarrow> sqlite_lower_char a = sqlite_lower_char c \<and> like_match (p @ ''%'') cs"
      using Cons.prems by auto
    also have "\<dots> \<longleftrightarrow> sqlite_lower_char a = sqlite_lower_char c
        \<and> (\<exists>w v. cs = w @ v \<and> map sqlite_lower_char w = map sqlite_lower_char p)"
      using Cons.IH [of cs] Cons.prems by simp
    also have "\<dots> \<longleftrightarrow> (\<exists>w v. c # cs = w @ v
        \<and> map sqlite_lower_char w = map sqlite_lower_char (a # p))"
    proof
      assume "sqlite_lower_char a = sqlite_lower_char c
        \<and> (\<exists>w v. cs = w @ v \<and> map sqlite_lower_char w = map sqlite_lower_char p)"
      then obtain w v where "cs = w @ v" "map sqlite_lower_char w = map sqlite_lower_char p"
        "sqlite_lower_char a = sqlite_lower_char c" by blast
      then have "c # cs = (c # w) @ v
        \<and> map sqlite_lower_char (c # w) = map sqlite_lower_char (a # p)" by simp
      then show "\<exists>w v. c # cs = w @ v
        \<and> map sqlite_lower_char w = map sqlite_lower_char (a # p)" by blast
    next
      assume "\<exists>w v. c # cs = w @ v
        \<and> map sqlite_lower_char w = map sqlite_lower_char (a # p)"
      then obtain w v where wv: "c # cs = w @ v"
        "map sqlite_lower_char w = map sqlite_lower_char (a # p)" by blast
      then obtain c' w' where w: "w = c' # w'" by (cases w) auto
      with wv have "c' = c" "cs = w' @ v" "sqlite_lower_char c = sqlite_lower_char a"
        "map sqlite_lower_char w' = map sqlite_lower_char p" by auto
      then show "sqlite_lower_char a = sqlite_lower_char c
        \<and> (\<exists>w v. cs = w @ v \<and> map sqlite_lower_char w = map sqlite_lower_char p)"
        by auto
    qed
    finally show ?thesis using Cons by simp
  qed
qed

lemma like_match_substring:
  assumes "CHR ''%'' \<notin> set p" and "CHR ''_'' \<notin> set p"
  shows "like_match (''%'' @ p @ ''%'') s
     \<longleftrightarrow> (\<exists>u w v. s = u @ w @ v \<and> map sqlite_lower_char w = map sqlite_lower_char p)"
proof -
  have "like_match (''%'' @ p @ ''%'') s \<longleftrightarrow> (\<exists>u t. s = u @ t \<and> like_match (p @ ''%'') t)"
    using like_match_percent [of "p @ ''%''" s] by simp
  also have "\<dots> \<longleftrightarrow> (\<exists>u t. s = u @ t
      \<and> (\<exists>w v. t = w @ v \<and> map sqlite_lower_char w = map sqlite_lower_char p))"
    using like_match_literal_percent [OF assms] by simp
  also have "\<dots> \<longleftrightarrow> (\<exists>u w v. s = u @ w @ v
      \<and> map sqlite_lower_char w = map sqlite_lower_char p)"
    by blast
  finally show ?thesis .
qed

text \<open>
  So for a query of ASCII characters without \<open>%\<close>, \<open>_\<close> and NUL, and a text without
  NUL, the filter is the substring test of the specification; a row without text never
  passes.
\<close>

lemma sqlite_lower_char_idem [simp]:
  "sqlite_lower_char (sqlite_lower_char c) = sqlite_lower_char c"
  by (auto simp: sqlite_lower_char_def Let_def)

lemma lower_char_ascii: "is_ascii c \<Longrightarrow> lower_char c = sqlite_lower_char c"
  by (auto simp: lower_char_def sqlite_lower_char_def is_ascii_def Let_def)

lemma lower_ascii: "isascii q \<Longrightarrow> lower q = sqlite_lower q"
  by (induction q) (auto simp: isascii_def lower_def sqlite_lower_def lower_char_ascii)

lemma sqlite_lower_char_special:
  "sqlite_lower_char c = CHR ''%'' \<longleftrightarrow> c = CHR ''%''"
  "sqlite_lower_char c = CHR ''_'' \<longleftrightarrow> c = CHR ''_''"
  "sqlite_lower_char c = CHR 0x00 \<longleftrightarrow> c = CHR 0x00"
  "CHR ''%'' = sqlite_lower_char c \<longleftrightarrow> c = CHR ''%''"
  "CHR ''_'' = sqlite_lower_char c \<longleftrightarrow> c = CHR ''_''"
  "CHR 0x00 = sqlite_lower_char c \<longleftrightarrow> c = CHR 0x00"
  by (auto simp: sqlite_lower_char_def Let_def dest!: arg_cong [where f = "of_char :: char \<Rightarrow> nat"])

lemma sqlite_lower_special:
  "CHR ''%'' \<in> set (sqlite_lower s) \<longleftrightarrow> CHR ''%'' \<in> set s"
  "CHR ''_'' \<in> set (sqlite_lower s) \<longleftrightarrow> CHR ''_'' \<in> set s"
  "CHR 0x00 \<in> set (sqlite_lower s) \<longleftrightarrow> CHR 0x00 \<in> set s"
  by (auto simp: sqlite_lower_def sqlite_lower_char_special image_iff)

lemma c_str_id: "CHR 0x00 \<notin> set s \<Longrightarrow> c_str s = s"
  by (auto simp: c_str_def)

lemma occurs_sqlite_lower:
  "occurs_ignoring_ascii_case q (sqlite_lower t) \<longleftrightarrow> occurs_ignoring_ascii_case q t"
proof
  assume "occurs_ignoring_ascii_case q (sqlite_lower t)"
  then obtain u w v where "map sqlite_lower_char t = u @ w @ v"
    and w: "map sqlite_lower_char w = map sqlite_lower_char q"
    by (auto simp: occurs_ignoring_ascii_case_def sqlite_lower_def)
  then obtain t1 t' where t1: "t = t1 @ t'" "w @ v = map sqlite_lower_char t'"
    unfolding map_eq_append_conv by blast
  from t1(2) obtain t2 t3 where "t' = t2 @ t3" "w = map sqlite_lower_char t2"
    unfolding append_eq_map_conv by blast
  with t1(1) have "t = t1 @ t2 @ t3" "map sqlite_lower_char t2 = w" by simp_all
  with w have "t = t1 @ t2 @ t3 \<and> map sqlite_lower_char t2 = map sqlite_lower_char q"
    by (auto simp: comp_def)
  then show "occurs_ignoring_ascii_case q t"
    unfolding occurs_ignoring_ascii_case_def by blast
next
  assume "occurs_ignoring_ascii_case q t"
  then obtain u w v where "t = u @ w @ v" "map sqlite_lower_char w = map sqlite_lower_char q"
    by (auto simp: occurs_ignoring_ascii_case_def)
  then have "sqlite_lower t = sqlite_lower u @ sqlite_lower w @ sqlite_lower v
      \<and> map sqlite_lower_char (sqlite_lower w) = map sqlite_lower_char q"
    by (simp add: sqlite_lower_def comp_def)
  then show "occurs_ignoring_ascii_case q (sqlite_lower t)"
    unfolding occurs_ignoring_ascii_case_def by blast
qed

lemma q_filter_null_text:
  "q \<noteq> [] \<Longrightarrow> text_col r = None \<Longrightarrow> \<not> selected (conditions frm since (Some q)) r"
  by (auto simp: selected_iff conditions_def)

lemma q_filter_plain_ascii:
  assumes "q \<noteq> []" and "isascii q"
    and "CHR ''%'' \<notin> set q" and "CHR ''_'' \<notin> set q" and "CHR 0x00 \<notin> set q"
    and "text_col r = Some t" and "CHR 0x00 \<notin> set t"
  shows "selected (conditions None None (Some q)) r \<longleftrightarrow> occurs_ignoring_ascii_case q t"
proof -
  let ?p = "sqlite_lower q"
  have plain: "CHR ''%'' \<notin> set ?p" "CHR ''_'' \<notin> set ?p" "CHR 0x00 \<notin> set ?p"
    using assms(3-5) by (simp_all add: sqlite_lower_special)
  have "CHR 0x00 \<notin> set (''%'' @ ?p @ ''%'')" using plain(3) by simp
  then have pat: "c_str (''%'' @ ?p @ ''%'') = ''%'' @ ?p @ ''%''" by (rule c_str_id)
  have tx: "c_str (sqlite_lower t) = sqlite_lower t"
    using assms(7) by (simp add: c_str_id sqlite_lower_special)
  have "selected (conditions None None (Some q)) r
      \<longleftrightarrow> sqlite_like (sqlite_lower t) (''%'' @ ?p @ ''%'')"
    using assms(1,2,6) by (simp add: selected_iff conditions_def lower_ascii)
  also have "\<dots> \<longleftrightarrow> like_match (''%'' @ ?p @ ''%'') (sqlite_lower t)"
    by (simp only: sqlite_like_def pat tx)
  also have "\<dots> \<longleftrightarrow> occurs_ignoring_ascii_case ?p (sqlite_lower t)"
    using like_match_substring [OF plain(1,2)] by (simp add: occurs_ignoring_ascii_case_def)
  also have "\<dots> \<longleftrightarrow> occurs_ignoring_ascii_case q (sqlite_lower t)"
    by (simp add: occurs_ignoring_ascii_case_def sqlite_lower_def comp_def)
  also have "\<dots> \<longleftrightarrow> occurs_ignoring_ascii_case q t" by (rule occurs_sqlite_lower)
  finally show ?thesis .
qed

text \<open>
  Claim C8 (text-query filter) says that a row passes the \<open>q\<close> filter exactly when
  \<open>q\<close> occurs in its text as a literal substring, case ignored, and that no character of
  \<open>q\<close> is a pattern character.  \<open>get_messages\<close> puts \<open>q.lower()\<close> between two \<open>%\<close> and
  hands it to \<open>LIKE\<close> without escaping, so \<open>_\<close> and \<open>%\<close> inside \<open>q\<close> are wildcards: with
  \<open>q = "a_c"\<close> the row whose text is \<open>abc\<close> is listed, though \<open>a_c\<close> does not occur in
  \<open>abc\<close>.
\<close>

theorem get_messages_q_underscore_is_wildcard:
  "get_messages None
     [\<lparr>message_id = ''m1'', from_msisdn = ''+919876543210'', to_msisdn = ''+14155550100'',
       ts = ''2025-01-15T09:00:00Z'', text_col = Some ''abc'',
       created_at = ''2025-01-15T09:00:01Z''\<rparr>] 50 0 None None (Some ''a_c'')
   = ([\<lparr>d_message_id = ''m1'', d_from = ''+919876543210'', d_to = ''+14155550100'',
        d_ts = ''2025-01-15T09:00:00Z'', d_text = Some ''abc''\<rparr>], 1)"
  by code_simp

theorem get_messages_q_underscore_is_wildcard_witness:
  "snd (get_messages None
     [\<lparr>message_id = ''m1'', from_msisdn = ''+919876543210'', to_msisdn = ''+14155550100'',
       ts = ''2025-01-15T09:00:00Z'', text_col = Some ''abc'',
       created_at = ''2025-01-15T09:00:01Z''\<rparr>] 50 0 None None (Some ''a_c'')) = 1"
  using get_messages_q_underscore_is_wildcard by simp

text \<open>
  The filter also misses a literal occurrence: Python lowers the capital U+00C9 of
  \<open>q\<close> to U+00E9, SQLite's \<open>LOWER\<close> and \<open>LIKE\<close> fold ASCII letters only, and the row
  whose text is that very capital is not listed.
\<close>

lemma get_messages_q_latin_capital:
  "get_messages None
     [\<lparr>message_id = ''m1'', from_msisdn = ''+919876543210'', to_msisdn = ''+14155550100'',
       ts = ''2025-01-15T09:00:00Z'', text_col = Some [CHR 0xC9],
       created_at = ''2025-01-15T09:00:01Z''\<rparr>] 50 0 None None (Some [CHR 0xC9])
   = ([], 0)"
  by code_simp

section \<open>Field validators\<close>

lemma validate_phone_number_iff:
  "validate_phone_number v = Inr v
     \<longleftrightarrow> (\<exists>ds. v = CHR ''+'' # ds \<and> ds \<noteq> [] \<and> list_all digit_char ds)"
  by (cases v) (auto simp: validate_phone_number_def startswith_def isdigit_def)

lemma digit_char_ascii: "is_ascii c \<Longrightarrow> digit_char c = ascii_digit c"
  by (auto simp: digit_char_def is_ascii_def)

text \<open>On ASCII strings the validator is the one the specification describes.\<close>

lemma validate_phone_number_ascii:
  assumes "isascii v"
  shows "validate_phone_number v = Inr v
     \<longleftrightarrow> (\<exists>ds. v = CHR ''+'' # ds \<and> ds \<noteq> [] \<and> list_all ascii_digit ds)"
proof -
  have "list_all digit_char ds = list_all ascii_digit ds" if "v = c # ds" for c ds
    using assms that by (auto simp: isascii_def list_all_iff digit_char_ascii)
  then show ?thesis unfolding validate_phone_number_iff by auto
qed

lemma validate_phone_number_examples:
  "validate_phone_number ''919876543210'' = Inl ValueError"
  "validate_phone_number ''+919876543210'' = Inr ''+919876543210''"
  "validate_phone_number ''+'' = Inl ValueError"
  by (simp_all add: validate_phone_number_def startswith_def isdigit_def digit_char_def
      ascii_digit_def)

text \<open>
  Claim C6 (phone validation) says that a value passes exactly when it is \<open>+\<close> followed
  by one or more ASCII digits.  The validator tests the rest with \<open>str.isdigit\<close>, which
  also holds of digits outside ASCII: \<open>+\<close> followed by the superscript two U+00B2
  passes.
\<close>

theorem validate_phone_number_accepts_superscript:
  "validate_phone_number [CHR ''+'', CHR 0xB2] = Inr [CHR ''+'', CHR 0xB2]
   \<and> \<not> ascii_digit (CHR 0xB2)"
  by (simp add: validate_phone_number_def startswith_def isdigit_def digit_char_def
      ascii_digit_def)

theorem validate_phone_number_accepts_superscript_witness:
  "isl (validate_phone_number [CHR ''+'', CHR 0xB2]) = False"
  using validate_phone_number_accepts_superscript by simp

lemma validate_timestamp_iff:
  "validate_timestamp fromisoformat v = Inr v
     \<longleftrightarrow> fromisoformat (replace v (CHR ''Z'') ''+00:00'') \<and> endswith v ''Z''"
  by (simp add: validate_timestamp_def)

lemma validate_timestamp_without_Z:
  "\<not> endswith v ''Z'' \<Longrightarrow> validate_timestamp fromisoformat v = Inl ValueError"
  by (simp add: validate_timestamp_def)

lemma validate_timestamp_examples:
  "validate_timestamp fromisoformat ''2025-01-15T10:00:00'' = Inl ValueError"
  "fromisoformat ''2025-01-15T10:00:00+00:00'' \<Longrightarrow>
   validate_timestamp fromisoformat ''2025-01-15T10:00:00Z'' = Inr ''2025-01-15T10:00:00Z''"
  by (simp_all add: validate_timestamp_def replace_def endswith_def)

lemma replace_absent: "old \<notin> set s \<Longrightarrow> replace s old new = s"
  by (induction s) (auto simp: replace_def)

lemma endswith_Z_iff: "endswith v ''Z'' \<longleftrightarrow> (\<exists>u. v = u @ ''Z'')"
proof
  assume "endswith v ''Z''"
  then have "drop (length v - 1) v = ''Z''" by (simp add: endswith_def)
  then have "v = take (length v - 1) v @ ''Z''" by (metis append_take_drop_id)
  then show "\<exists>u. v = u @ ''Z''" ..
next
  assume "\<exists>u. v = u @ ''Z''"
  then show "endswith v ''Z''" by (auto simp: endswith_def)
qed

lemma endswith_nonempty: "endswith s ''Z'' \<Longrightarrow> s \<noteq> []"
  by (auto simp: endswith_def)

text \<open>
  When the final \<open>Z\<close> is the only one, replacing every \<open>Z\<close> is replacing the final one,
  and the validator parses the string the specification names.
\<close>

lemma replace_trailing_only:
  assumes "endswith v ''Z''" and "CHR ''Z'' \<notin> set (butlast v)"
  shows "replace v (CHR ''Z'') ''+00:00'' = butlast v @ ''+00:00''"
proof -
  from assms(1) obtain u where v: "v = u @ ''Z''" by (auto simp: endswith_Z_iff)
  with assms(2) have "replace u (CHR ''Z'') ''+00:00'' = u" by (simp add: replace_absent)
  with v show ?thesis by (simp add: replace_def)
qed

text \<open>
  Claim C7 (timestamp validation) says that a value passes exactly when it ends with
  \<open>Z\<close> and parses once that final \<open>Z\<close> is replaced by \<open>+00:00\<close>.  The validator calls
  \<open>v.replace("Z", "+00:00")\<close>, which replaces every \<open>Z\<close>.  For \<open>2025-01-15Z:30Z\<close> it
  therefore asks the parser about \<open>2025-01-15+00:00:30+00:00\<close>, which
  \<open>datetime.fromisoformat\<close> reads as a date, the separator \<open>+\<close>, the time 00:00:30 and
  an offset; the specification's string \<open>2025-01-15Z:30+00:00\<close> does not parse.
\<close>

theorem validate_timestamp_interior_Z:
  "validate_timestamp fromisoformat ''2025-01-15Z:30Z''
     = (if fromisoformat ''2025-01-15+00:00:30+00:00'' then Inr ''2025-01-15Z:30Z''
        else Inl ValueError)"
  by (simp add: validate_timestamp_def replace_def endswith_def)

theorem validate_timestamp_interior_Z_witness:
  "validate_timestamp (\<lambda>s. s = ''2025-01-15+00:00:30+00:00'') ''2025-01-15Z:30Z''
     = Inr ''2025-01-15Z:30Z''"
  using validate_timestamp_interior_Z [of "\<lambda>s. s = ''2025-01-15+00:00:30+00:00''"] by simp

text \<open>
  In the other direction, \<open>2025-01-15Z10:00:00Z\<close> parses once its final \<open>Z\<close> is
  replaced (the first \<open>Z\<close> is then the separator), but the validator asks about the
  string below, which does not parse.
\<close>

lemma validate_timestamp_separator_Z:
  "validate_timestamp fromisoformat ''2025-01-15Z10:00:00Z''
     = (if fromisoformat ''2025-01-15+00:0010:00:00+00:00'' then Inr ''2025-01-15Z10:00:00Z''
        else Inl ValueError)"
  by (simp add: validate_timestamp_def replace_def endswith_def)

section \<open>Signature check and webhook\<close>

lemma isascii_hex: "isascii (hex bs)"
proof -
  have digits: "list_all is_ascii ''0123456789abcdef''"
    by (simp add: is_ascii_def)
  have "is_ascii (hex_digit n)" for n
  proof -
    have "n mod 16 < length ''0123456789abcdef''" by simp
    with digits show ?thesis unfolding hex_digit_def list_all_length by blast
  qed
  then show ?thesis by (induction bs) (simp_all add: hex_def isascii_def)
qed

text \<open>
  On an ASCII signature the verifier returns, and returns true exactly when a secret
  is configured and the signature is the hexadecimal digest.
\<close>

lemma verify_signature_ascii:
  "isascii signature \<Longrightarrow>
   verify_signature hmac_sha256 secret body signature
     = Inr (truthy secret \<and> signature = hex (hmac_sha256 (encode (the secret)) body))"
  by (auto simp: verify_signature_def compare_digest_def isascii_hex)

lemma verify_signature_no_secret:
  "\<not> truthy secret \<Longrightarrow> verify_signature hmac_sha256 secret body signature = Inr False"
  by (simp add: verify_signature_def)

text \<open>
  Claim C9 (signature verifier totality) says that \<open>verify_signature\<close> never raises.
  With a secret configured, it passes the signature to \<open>hmac.compare_digest\<close>, which
  raises \<open>TypeError\<close> on a \<open>str\<close> that is not ASCII: the one-character signature
  U+00E9 makes the verifier raise, for every body and digest.
\<close>

theorem verify_signature_non_ascii_raises:
  "verify_signature hmac_sha256 (Some ''testsecret'') body [CHR 0xE9] = Inl TypeError"
  by (simp add: verify_signature_def compare_digest_def isascii_def is_ascii_def)

theorem verify_signature_non_ascii_raises_witness:
  "verify_signature (\<lambda>key msg. []) (Some ''testsecret'') [] [CHR 0xE9] = Inl TypeError"
  using verify_signature_non_ascii_raises [of "\<lambda>key msg. []" "[]"] by simp

lemma webhook_missing_signature:
  "\<not> truthy x_signature \<Longrightarrow>
   webhook hmac_sha256 loads fromisoformat fault utcnow secret db body x_signature
     = (HTTPException 401, db)"
  by (simp add: webhook_def)

lemma webhook_wrong_ascii_signature:
  assumes "isascii signature"
    and "\<not> truthy secret \<or> signature \<noteq> hex (hmac_sha256 (encode (the secret)) body)"
  shows "webhook hmac_sha256 loads fromisoformat fault utcnow secret db body (Some signature)
     = (HTTPException 401, db)"
  using assms by (auto simp: webhook_def verify_signature_ascii)

text \<open>A request whose signature is not accepted never reaches the table.\<close>

lemma webhook_rejected_table_unchanged:
  assumes "\<not> truthy x_signature
     \<or> verify_signature hmac_sha256 secret body (the x_signature) \<noteq> Inr True"
  shows "snd (webhook hmac_sha256 loads fromisoformat fault utcnow secret db body x_signature) = db"
  using assms by (auto simp: webhook_def split: sum.splits bool.splits)

text \<open>
  Claim C2 (signature rejection) says that a signature that is missing or differs from
  the digest gives the invalid-signature outcome and leaves the table as it was.  The
  table is left as it was (\<open>webhook_rejected_table_unchanged\<close>), and the outcome is
  \<open>HTTPException 401\<close> for a missing and for a wrong ASCII signature.  For the signature
  U+00E9, which is not the digest, the \<open>TypeError\<close> of \<open>verify_signature\<close> leaves the
  handler uncaught instead.
\<close>

theorem webhook_non_ascii_signature_uncaught:
  "webhook hmac_sha256 loads fromisoformat fault utcnow (Some ''testsecret'') db body
     (Some [CHR 0xE9]) = (Uncaught TypeError, db)"
  by (simp add: webhook_def verify_signature_def compare_digest_def isascii_def is_ascii_def)

theorem webhook_non_ascii_signature_uncaught_witness:
  "webhook (\<lambda>key msg. []) (\<lambda>body. Inl JSONDecodeError) (\<lambda>s. False) None
     ''2025-01-15T10:00:01'' (Some ''testsecret'') [] [] (Some [CHR 0xE9])
   = (Uncaught TypeError, [])"
  using webhook_non_ascii_signature_uncaught
    [of "\<lambda>key msg. []" "\<lambda>body. Inl JSONDecodeError" "\<lambda>s. False" None
        "''2025-01-15T10:00:01''" "[]" "[]"]
  by simp

text \<open>
  A request that passes the signature check and the validation is answered from the
  result of \<open>insert_message\<close>; sent twice, it is accepted twice and stored once.
\<close>

lemma webhook_accepted:
  assumes "sg \<noteq> []" and "verify_signature hmac_sha256 secret body sg = Inr True"
    and "loads body = Inr r" and "WebhookRequest fromisoformat r = Inr r"
  shows "webhook hmac_sha256 loads fromisoformat fault utcnow secret db body (Some sg)
     = (case insert_message fault utcnow db (req_message_id r) (req_from r) (req_to r)
               (req_ts r) (req_text r) of
          (db', success, is_duplicate) \<Rightarrow>
            if \<not> success then (HTTPException 500, db') else (WebhookResponse_ok, db'))"
  using assms by (simp add: webhook_def try_bind_def)

lemma webhook_twice:
  assumes "sg \<noteq> []" and "verify_signature hmac_sha256 secret body sg = Inr True"
    and "loads body = Inr r" and "WebhookRequest fromisoformat r = Inr r"
    and "\<forall>m \<in> set db. message_id m \<noteq> req_message_id r"
  shows "webhook hmac_sha256 loads fromisoformat None utcnow secret db body (Some sg)
       = (WebhookResponse_ok,
          db @ [new_row utcnow (req_message_id r) (req_from r) (req_to r) (req_ts r) (req_text r)])"
    and "webhook hmac_sha256 loads fromisoformat None utcnow1 secret
          (db @ [new_row utcnow (req_message_id r) (req_from r) (req_to r) (req_ts r) (req_text r)])
          body (Some sg)
       = (WebhookResponse_ok,
          db @ [new_row utcnow (req_message_id r) (req_from r) (req_to r) (req_ts r) (req_text r)])"
  using assms
  by (simp_all add: webhook_accepted insert_message_fresh insert_message_present)

text \<open>
  The webhook leaves the table as it was or as \<open>insert_message\<close> left it for a
  validated request.  So the table keeps its primary key unique, and every timestamp
  in it went through \<open>validate_timestamp\<close>: it ends with \<open>Z\<close> and is not empty.
\<close>

lemma webhook_table:
  "snd (webhook hmac_sha256 loads fromisoformat fault utcnow secret db body x_signature) = db
   \<or> (\<exists>r. snd (webhook hmac_sha256 loads fromisoformat fault utcnow secret db body x_signature)
          = fst (insert_message fault utcnow db (req_message_id r) (req_from r) (req_to r)
                  (req_ts r) (req_text r))
        \<and> WebhookRequest fromisoformat r = Inr r)"
proof (cases "truthy x_signature
    \<and> verify_signature hmac_sha256 secret body (the x_signature) = Inr True")
  case False
  then show ?thesis
    by (auto simp: webhook_def split: sum.splits bool.splits)
next
  case True
  show ?thesis
  proof (cases "try_bind (loads body) (WebhookRequest fromisoformat)")
    case (Inl e)
    with True show ?thesis by (auto simp: webhook_def split: exn.splits)
  next
    case (Inr w)
    then have "WebhookRequest fromisoformat w = Inr w"
      by (auto simp: try_bind_def WebhookRequest_def split: sum.splits if_splits)
    with True Inr show ?thesis
      by (auto simp: webhook_def split: prod.splits)
  qed
qed

lemma webhook_keeps_primary_key:
  assumes "distinct (map message_id db)"
  shows "distinct (map message_id
           (snd (webhook hmac_sha256 loads fromisoformat fault utcnow secret db body x_signature)))"
  using webhook_table [of hmac_sha256 loads fromisoformat fault utcnow secret db body x_signature]
    assms insert_message_distinct
  by auto

lemma webhook_keeps_timestamps:
  assumes "\<forall>r \<in> set db. endswith (ts r) ''Z''"
  shows "\<forall>r \<in> set (snd (webhook hmac_sha256 loads fromisoformat fault utcnow secret db body
            x_signature)). endswith (ts r) ''Z''"
proof -
  have step: "\<forall>r \<in> set (fst (insert_message fault utcnow db (req_message_id w) (req_from w)
       (req_to w) (req_ts w) (req_text w))). endswith (ts r) ''Z''"
    if "WebhookRequest fromisoformat w = Inr w" for w
  proof -
    from that have "endswith (req_ts w) ''Z''"
      by (auto simp: WebhookRequest_def validate_timestamp_def split: if_splits)
    with assms show ?thesis
      using insert_message_table [of fault utcnow db "req_message_id w" "req_from w" "req_to w"
        "req_ts w" "req_text w"]
      by (auto simp: new_row_def)
  qed
  from webhook_table [of hmac_sha256 loads fromisoformat fault utcnow secret db body x_signature]
  show ?thesis using assms step by auto
qed

end
